theory Spec2Isabelle
  imports Main "HOL-Library.Word" "HOL-Library.AList"
begin

section \<open>Machine integers\<close>

text \<open>
  \<open>int\<close> is 32 bits wide and \<open>int64_t\<close> 64 bits; both are two's complement words, read
  through \<open>sint\<close> and compared with \<open><s\<close>. Arithmetic on words wraps around, which is
  what the compiled code does where C++ leaves signed overflow undefined.
\<close>

type_synonym int32 = "32 word"
type_synonym int64 = "64 word"

text \<open>\<open>std::min\<close> on \<open>int64_t\<close>: the second argument only when it is smaller.\<close>

definition min64 :: "int64 \<Rightarrow> int64 \<Rightarrow> int64" where
  "min64 a b = (if b <s a then b else a)"

text \<open>Integer division of C++ truncates towards zero.\<close>

definition c_div :: "int \<Rightarrow> int \<Rightarrow> int" where
  "c_div a b = sgn a * sgn b * (\<bar>a\<bar> div \<bar>b\<bar>)"

section \<open>The C library: \<open>std::to_string\<close>, \<open>gmtime\<close>, \<open>strftime\<close>\<close>

definition digit :: "nat \<Rightarrow> char" where
  "digit n = ''0123456789'' ! n"

function to_string_nat :: "nat \<Rightarrow> string" where
  "to_string_nat n = (if n < 10 then [digit n] else to_string_nat (n div 10) @ [digit (n mod 10)])"
  by pat_completeness auto
termination
  by (relation "measure id") auto

declare to_string_nat.simps [simp del]

definition to_string :: "int \<Rightarrow> string" where
  "to_string i = (if i < 0 then CHR ''-'' # to_string_nat (nat (- i)) else to_string_nat (nat i))"

text \<open>A number printed in at least \<open>w\<close> digits, padded with zeros (\<open>%02d\<close>, \<open>%04d\<close>).\<close>

definition zero_pad :: "nat \<Rightarrow> int \<Rightarrow> string" where
  "zero_pad w i =
     (if i < 0 then to_string i
      else replicate (w - length (to_string i)) CHR ''0'' @ to_string i)"

record tm =
  tm_year :: int
  tm_mon :: int
  tm_mday :: int
  tm_hour :: int
  tm_min :: int
  tm_sec :: int

text \<open>
  \<open>gmtime\<close> on a 64-bit \<open>time_t\<close>: seconds since 1970-01-01 00:00:00 UTC to the calendar
  date of the proleptic Gregorian calendar. \<open>tm_year\<close> holds the full year and \<open>tm_mon\<close>
  the month from 1, as \<open>%Y\<close> and \<open>%m\<close> print them.
\<close>

definition gmtime :: "int \<Rightarrow> tm" where
  "gmtime seconds =
     (let days = seconds div 86400;
          rem = seconds mod 86400;
          z = days + 719468;
          era = z div 146097;
          doe = z - era * 146097;
          yoe = (doe - doe div 1460 + doe div 36524 - doe div 146096) div 365;
          doy = doe - (365 * yoe + yoe div 4 - yoe div 100);
          mp = (5 * doy + 2) div 153;
          d = doy - (153 * mp + 2) div 5 + 1;
          m = (if mp < 10 then mp + 3 else mp - 9);
          y = yoe + era * 400 + (if m \<le> 2 then 1 else 0)
      in \<lparr>tm_year = y, tm_mon = m, tm_mday = d,
          tm_hour = rem div 3600, tm_min = (rem mod 3600) div 60, tm_sec = rem mod 60\<rparr>)"

text \<open>\<open>strftime\<close> with the format \<open>%Y-%m-%d\<close>.\<close>

definition strftime_date :: "tm \<Rightarrow> string" where
  "strftime_date t =
     zero_pad 4 (tm_year t) @ ''-'' @ zero_pad 2 (tm_mon t) @ ''-'' @ zero_pad 2 (tm_mday t)"

text \<open>\<open>strftime\<close> with the format \<open>%Y-%m-%d %H:%M:%S\<close>.\<close>

definition strftime_datetime :: "tm \<Rightarrow> string" where
  "strftime_datetime t =
     strftime_date t @ '' '' @ zero_pad 2 (tm_hour t) @ '':'' @ zero_pad 2 (tm_min t)
       @ '':'' @ zero_pad 2 (tm_sec t)"

section \<open>Arrow arrays and the conversion of a cell to a string\<close>

text \<open>
  A floating-point value is known here only through the text that \<open>snprintf\<close> prints for it
  under the conversion \<open>%.6g\<close>; floating-point arithmetic itself is outside this model.
\<close>

datatype float64 = Double (printf_6g: string)

text \<open>
  The type ids of \<open>arrow::Type\<close> that \<open>read_parquet_data\<close> names in its \<open>switch\<close>, and
  \<open>OTHER n\<close> for the enumerator \<open>n\<close> of every other one.
\<close>

datatype type_id =
  STRING | INT64 | INT32 | DOUBLE | FLOAT | BOOL | TIMESTAMP | DATE32 | DATE64 | OTHER nat

text \<open>
  One chunk of a column: an array of one Arrow class. A slot is \<open>None\<close> where the validity
  bitmap marks it null, and holds the value of the array's C type otherwise. The array of a
  type without a case in the \<open>switch\<close> carries its type and its validity only.
\<close>

datatype chunk =
    StringArray "string option list"
  | Int64Array "int64 option list"
  | Int32Array "int32 option list"
  | DoubleArray "float64 option list"
  | FloatArray "float64 option list"
  | BooleanArray "bool option list"
  | TimestampArray "int64 option list"
  | Date32Array "int32 option list"
  | Date64Array "int64 option list"
  | OtherArray nat "unit option list"

fun chunk_type_id :: "chunk \<Rightarrow> type_id" where
  "chunk_type_id (StringArray vs) = STRING"
| "chunk_type_id (Int64Array vs) = INT64"
| "chunk_type_id (Int32Array vs) = INT32"
| "chunk_type_id (DoubleArray vs) = DOUBLE"
| "chunk_type_id (FloatArray vs) = FLOAT"
| "chunk_type_id (BooleanArray vs) = BOOL"
| "chunk_type_id (TimestampArray vs) = TIMESTAMP"
| "chunk_type_id (Date32Array vs) = DATE32"
| "chunk_type_id (Date64Array vs) = DATE64"
| "chunk_type_id (OtherArray n vs) = OTHER n"

fun chunk_length :: "chunk \<Rightarrow> nat" where
  "chunk_length (StringArray vs) = length vs"
| "chunk_length (Int64Array vs) = length vs"
| "chunk_length (Int32Array vs) = length vs"
| "chunk_length (DoubleArray vs) = length vs"
| "chunk_length (FloatArray vs) = length vs"
| "chunk_length (BooleanArray vs) = length vs"
| "chunk_length (TimestampArray vs) = length vs"
| "chunk_length (Date32Array vs) = length vs"
| "chunk_length (Date64Array vs) = length vs"
| "chunk_length (OtherArray n vs) = length vs"

text \<open>\<open>chunk->IsNull(i)\<close>, for \<open>i\<close> below the chunk's length.\<close>

fun IsNull :: "chunk \<Rightarrow> nat \<Rightarrow> bool" where
  "IsNull (StringArray vs) i = (vs ! i = None)"
| "IsNull (Int64Array vs) i = (vs ! i = None)"
| "IsNull (Int32Array vs) i = (vs ! i = None)"
| "IsNull (DoubleArray vs) i = (vs ! i = None)"
| "IsNull (FloatArray vs) i = (vs ! i = None)"
| "IsNull (BooleanArray vs) i = (vs ! i = None)"
| "IsNull (TimestampArray vs) i = (vs ! i = None)"
| "IsNull (Date32Array vs) i = (vs ! i = None)"
| "IsNull (Date64Array vs) i = (vs ! i = None)"
| "IsNull (OtherArray n vs) i = (vs ! i = None)"

text \<open>
  The body of the innermost loop of \<open>read_parquet_data\<close> for one slot: \<open>NULL\<close> for a null
  slot, and the branch of the \<open>switch\<close> for the chunk's type otherwise.
\<close>

definition null_or :: "('a \<Rightarrow> string) \<Rightarrow> 'a option \<Rightarrow> string" where
  "null_or f v = (case v of None \<Rightarrow> ''NULL'' | Some x \<Rightarrow> f x)"

text \<open>The \<open>TIMESTAMP\<close> branch: the value is taken to be in microseconds.\<close>

definition timestamp_string :: "int64 \<Rightarrow> string" where
  "timestamp_string timestamp = strftime_datetime (gmtime (c_div (sint timestamp) 1000000))"

text \<open>
  The \<open>DATE32\<close> branch: \<open>days * 86400\<close> is a product of two \<open>int\<close>, computed in 32 bits
  and only then widened to \<open>time_t\<close>.
\<close>

definition date32_seconds :: "int32 \<Rightarrow> int" where
  "date32_seconds days = sint (scast (days * 86400) :: int64)"

definition date32_string :: "int32 \<Rightarrow> string" where
  "date32_string days = strftime_date (gmtime (date32_seconds days))"

text \<open>The \<open>DATE64\<close> branch.\<close>

definition date64_string :: "int64 \<Rightarrow> string" where
  "date64_string millis = strftime_date (gmtime (c_div (sint millis) 1000))"

text \<open>The strings of all slots of a chunk, in order.\<close>

fun stringify :: "chunk \<Rightarrow> string list" where
  "stringify (StringArray vs) = map (null_or (\<lambda>s. s)) vs"
| "stringify (Int64Array vs) = map (null_or (\<lambda>x. to_string (sint x))) vs"
| "stringify (Int32Array vs) = map (null_or (\<lambda>x. to_string (sint x))) vs"
| "stringify (DoubleArray vs) = map (null_or printf_6g) vs"
| "stringify (FloatArray vs) = map (null_or printf_6g) vs"
| "stringify (BooleanArray vs) = map (null_or (\<lambda>b. if b then ''true'' else ''false'')) vs"
| "stringify (TimestampArray vs) = map (null_or timestamp_string) vs"
| "stringify (Date32Array vs) = map (null_or date32_string) vs"
| "stringify (Date64Array vs) = map (null_or date64_string) vs"
| "stringify (OtherArray n vs) = map (null_or (\<lambda>_. ''UNSUPPORTED'')) vs"

section \<open>Parquet files as the reader sees them\<close>

text \<open>
  What is undefined or aborts the process: \<open>Table::Slice\<close> called with an offset that is
  negative or beyond the table, \<open>free\<close> of a pointer that was never assigned, and an
  index beyond an array.
\<close>

datatype fault = SliceOutOfRange | FreeOfUninitialised | IndexOutOfRange

text \<open>
  Arrow and Parquet are libraries that the reader calls. Their part is modelled by what
  their interfaces promise: a file is what its metadata and its decoded row groups are.

  A row group: the row count its metadata declares, and the chunks it decodes to, one for
  each field of the schema and each of as many slots as the row group has rows (\<open>None\<close>
  when reading the row group fails).
\<close>

record row_group =
  rg_num_rows :: int64
  rg_columns :: "chunk list option"

text \<open>
  An opened file: the fields \<open>GetSchema\<close> gives as pairs of name and type name (\<open>None\<close>
  when its status is not ok), \<open>metadata()->num_rows()\<close>, and the row groups.
\<close>

record parquet_file =
  schema :: "(string \<times> string) list option"
  md_num_rows :: int64
  row_groups :: "row_group list"

record table =
  t_num_rows :: int64
  t_columns :: "chunk list list"

text \<open>
  \<open>FileReader::ReadRowGroups\<close>: the selected row groups one after the other, every column
  with one chunk for each of them; no table when one of them cannot be read.
\<close>

definition ReadRowGroups :: "parquet_file \<Rightarrow> nat list \<Rightarrow> table option" where
  "ReadRowGroups f row_groups_to_read =
     (case schema f of
        None \<Rightarrow> None
      | Some flds \<Rightarrow>
          (let rgs = map (\<lambda>rg. row_groups f ! rg) row_groups_to_read
           in case those (map rg_columns rgs) of
                None \<Rightarrow> None
              | Some decoded \<Rightarrow>
                  Some \<lparr>t_num_rows = sum_list (map rg_num_rows rgs),
                        t_columns = map (\<lambda>col. map (\<lambda>chunks. chunks ! col) decoded)
                                        [0..<length flds]\<rparr>))"

text \<open>\<open>FileReader::ReadTable\<close>: every row group.\<close>

definition ReadTable :: "parquet_file \<Rightarrow> table option" where
  "ReadTable f = ReadRowGroups f [0..<length (row_groups f)]"

text \<open>\<open>Array::Slice\<close>: at most \<open>len\<close> slots from \<open>off\<close> on.\<close>

fun slice_chunk :: "chunk \<Rightarrow> nat \<Rightarrow> nat \<Rightarrow> chunk" where
  "slice_chunk (StringArray vs) off len = StringArray (take len (drop off vs))"
| "slice_chunk (Int64Array vs) off len = Int64Array (take len (drop off vs))"
| "slice_chunk (Int32Array vs) off len = Int32Array (take len (drop off vs))"
| "slice_chunk (DoubleArray vs) off len = DoubleArray (take len (drop off vs))"
| "slice_chunk (FloatArray vs) off len = FloatArray (take len (drop off vs))"
| "slice_chunk (BooleanArray vs) off len = BooleanArray (take len (drop off vs))"
| "slice_chunk (TimestampArray vs) off len = TimestampArray (take len (drop off vs))"
| "slice_chunk (Date32Array vs) off len = Date32Array (take len (drop off vs))"
| "slice_chunk (Date64Array vs) off len = Date64Array (take len (drop off vs))"
| "slice_chunk (OtherArray n vs) off len = OtherArray n (take len (drop off vs))"

text \<open>
  \<open>ChunkedArray::Slice\<close>: the chunks before the offset are skipped, then chunks are
  sliced until the length is used up.
\<close>

fun slice_chunks :: "chunk list \<Rightarrow> nat \<Rightarrow> nat \<Rightarrow> chunk list" where
  "slice_chunks [] off len = []"
| "slice_chunks (c # cs) off len =
     (if chunk_length c \<le> off then slice_chunks cs (off - chunk_length c) len
      else if len = 0 then []
      else slice_chunk c off len # slice_chunks cs 0 (len - (chunk_length c - off)))"

text \<open>
  \<open>Table::Slice\<close>: rows \<open>offset\<close> to \<open>offset + length\<close> of every column, fewer when the
  table ends before. Arrow checks that the offset is not beyond the table and reads out
  of bounds on a negative one.
\<close>

definition Slice :: "table \<Rightarrow> int \<Rightarrow> int \<Rightarrow> fault + table" where
  "Slice t offset len =
     (if offset < 0 \<or> sint (t_num_rows t) < offset then Inl SliceOutOfRange
      else Inr \<lparr>t_num_rows = word_of_int (min len (sint (t_num_rows t) - offset)),
                t_columns = map (\<lambda>column. slice_chunks column (nat offset) (nat len))
                                (t_columns t)\<rparr>)"

section \<open>\<open>read_parquet_data\<close>: the window, the row groups, the slice\<close>

text \<open>
  The first loop over the row groups. \<open>sizes\<close> are the row counts of the row groups not
  yet visited, \<open>rg\<close> is the index of the first of them and \<open>current_row\<close> the running total.
\<close>

fun select_row_groups :: "int64 list \<Rightarrow> int32 \<Rightarrow> int64 \<Rightarrow> nat \<Rightarrow> int64 \<Rightarrow> nat list" where
  "select_row_groups [] start_row end_row rg current_row = []"
| "select_row_groups (rg_row_count # sizes) start_row end_row rg current_row =
     (let selected =
            (if scast start_row <s current_row + rg_row_count \<and> current_row <s end_row
             then [rg] else [])
      in if end_row \<le>s current_row + rg_row_count then selected
         else selected @ select_row_groups sizes start_row end_row (Suc rg)
                           (current_row + rg_row_count))"

text \<open>
  The running total of the first loop when it reaches row group \<open>k\<close>: the rows of the file
  before that row group.
\<close>

definition running_total :: "int64 list \<Rightarrow> nat \<Rightarrow> int" where
  "running_total sizes k = sum_list (map sint (take k sizes))"

text \<open>
  The second loop, which runs over the selected row groups only, with \<open>current_row\<close>
  starting again from 0. \<open>sizes\<close> are the row counts of the selected row groups.
\<close>

fun offset_in_table :: "int64 list \<Rightarrow> int32 \<Rightarrow> int64 \<Rightarrow> int64" where
  "offset_in_table [] start_row current_row = 0"
| "offset_in_table (rg_row_count # sizes) start_row current_row =
     (if scast start_row <s current_row + rg_row_count then scast start_row - current_row
      else offset_in_table sizes start_row (current_row + rg_row_count))"

text \<open>
  The grid of cells, row-major. \<open>new char*[n]\<close> leaves its pointers unassigned: a cell is
  \<open>None\<close> until a string is stored in it.
\<close>

type_synonym grid = "string option list list"

record table_data =
  data :: "grid option"
  row_count :: int32
  column_count :: int32

text \<open>The loop over the slots of one chunk, given their strings.\<close>

fun fill_chunk :: "string list \<Rightarrow> nat \<Rightarrow> nat \<Rightarrow> nat \<Rightarrow> grid \<Rightarrow> nat \<times> grid" where
  "fill_chunk [] col rows row_idx g = (row_idx, g)"
| "fill_chunk (v # vs) col rows row_idx g =
     (if row_idx < rows
      then fill_chunk vs col rows (Suc row_idx) (g[row_idx := (g ! row_idx)[col := Some v]])
      else (row_idx, g))"

text \<open>The loop over the chunks of one column.\<close>

fun fill_column :: "chunk list \<Rightarrow> nat \<Rightarrow> nat \<Rightarrow> nat \<Rightarrow> grid \<Rightarrow> grid" where
  "fill_column [] col rows row_idx g = g"
| "fill_column (c # cs) col rows row_idx g =
     (case fill_chunk (stringify c) col rows row_idx g of
        (row_idx', g') \<Rightarrow> fill_column cs col rows row_idx' g')"

text \<open>The loop over the columns.\<close>

fun fill_columns :: "chunk list list \<Rightarrow> nat \<Rightarrow> nat \<Rightarrow> grid \<Rightarrow> grid" where
  "fill_columns [] col rows g = g"
| "fill_columns (column # columns) col rows g =
     fill_columns columns (Suc col) rows (fill_column column col rows 0 g)"

text \<open>
  \<open>read_parquet_data\<close> from the point where it holds the reader. The result is
  \<open>Inr None\<close> for the null pointer and \<open>Inr (Some d)\<close> for a table.
\<close>

definition read_rows :: "parquet_file \<Rightarrow> int32 \<Rightarrow> int32 \<Rightarrow> fault + table_data option" where
  "read_rows f start_row num_rows =
     (let total_rows = md_num_rows f;
          end_row = min64 (scast (start_row + num_rows)) total_rows;
          rows = (ucast (end_row - scast start_row) :: int32)
      in if rows \<le>s 0 then Inr (Some \<lparr>data = None, row_count = rows, column_count = 0\<rparr>)
         else
           (let sizes = map rg_num_rows (row_groups f);
                row_groups_to_read = select_row_groups sizes start_row end_row 0 0;
                read = (if length row_groups_to_read = length (row_groups f) then ReadTable f
                        else ReadRowGroups f row_groups_to_read)
            in case read of
                 None \<Rightarrow> Inr None
               | Some t \<Rightarrow>
                   (case (if scast rows <s t_num_rows t
                          then Slice t
                                 (sint (offset_in_table (map (\<lambda>rg. sizes ! rg) row_groups_to_read)
                                          start_row 0))
                                 (sint rows)
                          else Inr t) of
                      Inl e \<Rightarrow> Inl e
                    | Inr t' \<Rightarrow>
                        (let columns = length (t_columns t');
                             g = replicate (nat (sint rows)) (replicate columns None)
                         in Inr (Some \<lparr>data = Some (fill_columns (t_columns t') 0
                                                       (nat (sint rows)) g),
                                       row_count = rows,
                                       column_count = of_nat columns\<rparr>)))))"

text \<open>
  The specification's reference for a window that crosses row groups: the whole file is
  read and cut to the window, from \<open>start_row\<close> on. It is \<open>read_rows\<close> without the
  selection of row groups.
\<close>

definition whole_file_window :: "parquet_file \<Rightarrow> int32 \<Rightarrow> int32 \<Rightarrow> fault + table_data option" where
  "whole_file_window f start_row num_rows =
     (let end_row = min64 (scast (start_row + num_rows)) (md_num_rows f);
          rows = (ucast (end_row - scast start_row) :: int32)
      in case ReadTable f of
           None \<Rightarrow> Inr None
         | Some t \<Rightarrow>
             (case Slice t (sint start_row) (sint rows) of
                Inl e \<Rightarrow> Inl e
              | Inr t' \<Rightarrow>
                  (let columns = length (t_columns t');
                       g = replicate (nat (sint rows)) (replicate columns None)
                   in Inr (Some \<lparr>data = Some (fill_columns (t_columns t') 0 (nat (sint rows)) g),
                                 row_count = rows,
                                 column_count = of_nat columns\<rparr>))))"

section \<open>The reader cache\<close>

text \<open>
  What opening a path comes to in \<open>get_cached_reader\<close>: one of its four ways to return the
  null pointer, or a reader on the file.
\<close>

datatype open_result =
  MemoryMapFailed | BuilderOpenFailed | BuildFailed | Thrown | Opened parquet_file

type_synonym file_system = "string \<Rightarrow> open_result"

text \<open>
  A reader, tagged with the number of the open that made it, which tells two readers of
  one file apart.
\<close>

record reader =
  handle :: nat
  opened :: parquet_file

text \<open>
  \<open>reader_cache\<close> with its entries listed, and the number of times a file was opened so
  far. The keys are the path strings as the caller passed them.
\<close>

record cache_state =
  reader_cache :: "(string \<times> reader) list"
  opens :: nat

definition get_cached_reader :: "file_system \<Rightarrow> string \<Rightarrow> cache_state \<Rightarrow> reader option \<times> cache_state" where
  "get_cached_reader fs file_path st =
     (case map_of (reader_cache st) file_path of
        Some r \<Rightarrow> (Some r, st)
      | None \<Rightarrow>
          (case fs file_path of
             MemoryMapFailed \<Rightarrow> (None, st\<lparr>opens := Suc (opens st)\<rparr>)
           | BuilderOpenFailed \<Rightarrow> (None, st\<lparr>opens := Suc (opens st)\<rparr>)
           | BuildFailed \<Rightarrow> (None, st\<lparr>opens := Suc (opens st)\<rparr>)
           | Thrown \<Rightarrow> (None, st\<lparr>opens := Suc (opens st)\<rparr>)
           | Opened f \<Rightarrow>
               (let r = \<lparr>handle = opens st, opened = f\<rparr>
                in (Some r, \<lparr>reader_cache = AList.update file_path r (reader_cache st),
                             opens = Suc (opens st)\<rparr>))))"

definition clear_parquet_cache :: "string \<Rightarrow> cache_state \<Rightarrow> cache_state" where
  "clear_parquet_cache file_path st = st\<lparr>reader_cache := AList.delete file_path (reader_cache st)\<rparr>"

definition clear_all_parquet_cache :: "cache_state \<Rightarrow> cache_state" where
  "clear_all_parquet_cache st = st\<lparr>reader_cache := []\<rparr>"

section \<open>The exported functions\<close>

record column_info =
  name :: "string option"
  type :: "string option"

record schema_info =
  columns :: "column_info list"
  info_column_count :: int32
  info_row_count :: int64

definition read_parquet_schema :: "file_system \<Rightarrow> string \<Rightarrow> cache_state \<Rightarrow> schema_info option \<times> cache_state" where
  "read_parquet_schema fs file_path st =
     (case get_cached_reader fs file_path st of
        (None, st') \<Rightarrow> (None, st')
      | (Some r, st') \<Rightarrow>
          (case schema (opened r) of
             None \<Rightarrow> (None, st')
           | Some flds \<Rightarrow>
               (Some \<lparr>columns = map (\<lambda>(n, t). \<lparr>name = Some n, type = Some t\<rparr>) flds,
                      info_column_count = of_nat (length flds),
                      info_row_count = md_num_rows (opened r)\<rparr>, st')))"

definition read_parquet_data ::
  "file_system \<Rightarrow> string \<Rightarrow> int32 \<Rightarrow> int32 \<Rightarrow> cache_state \<Rightarrow> (fault + table_data option) \<times> cache_state" where
  "read_parquet_data fs file_path start_row num_rows st =
     (case get_cached_reader fs file_path st of
        (None, st') \<Rightarrow> (Inr None, st')
      | (Some r, st') \<Rightarrow> (read_rows (opened r) start_row num_rows, st'))"

text \<open>
  \<open>free\<close> on each pointer of a list: the strings released, or a fault at the first
  pointer that was never assigned.
\<close>

fun free_all :: "string option list \<Rightarrow> fault + string list" where
  "free_all [] = Inr []"
| "free_all (None # ps) = Inl FreeOfUninitialised"
| "free_all (Some s # ps) = (case free_all ps of Inl e \<Rightarrow> Inl e | Inr ss \<Rightarrow> Inr (s # ss))"

definition free_schema_info :: "schema_info option \<Rightarrow> fault + string list" where
  "free_schema_info info =
     (case info of
        None \<Rightarrow> Inr []
      | Some i \<Rightarrow>
          (let n = nat (sint (info_column_count i))
           in if length (columns i) < n then Inl IndexOutOfRange
              else free_all (concat (map (\<lambda>c. [name c, type c]) (take n (columns i))))))"

definition free_table_data :: "table_data option \<Rightarrow> fault + string list" where
  "free_table_data d =
     (case d of
        None \<Rightarrow> Inr []
      | Some t \<Rightarrow>
          (case data t of
             None \<Rightarrow> Inr []
           | Some g \<Rightarrow>
               (let rows = nat (sint (row_count t)); cols = nat (sint (column_count t))
                in if length g < rows \<or> list_ex (\<lambda>row. length row < cols) (take rows g)
                   then Inl IndexOutOfRange
                   else free_all (concat (map (take cols) (take rows g))))))"

section \<open>Sample files\<close>

text \<open>
  A file of one \<open>INT64\<close> column whose value in every row is the index of the row in the
  file, written in row groups of the given sizes.
\<close>

definition numbered_file :: "nat list \<Rightarrow> parquet_file" where
  "numbered_file sizes =
     \<lparr>schema = Some [(''id'', ''int64'')],
      md_num_rows = of_nat (sum_list sizes),
      row_groups =
        map (\<lambda>g. \<lparr>rg_num_rows = of_nat (sizes ! g),
                   rg_columns = Some [Int64Array (map (\<lambda>i. Some (of_nat (sum_list (take g sizes) + i)))
                                                       [0..<sizes ! g])]\<rparr>)
            [0..<length sizes]\<rparr>"

text \<open>A file of one row group with a \<open>BOOL\<close> column and a column of a type without a case.\<close>

definition mixed_file :: parquet_file where
  "mixed_file =
     \<lparr>schema = Some [(''flag'', ''bool''), (''price'', ''decimal128(10, 2)'')],
      md_num_rows = 3,
      row_groups =
        [\<lparr>rg_num_rows = 3,
          rg_columns = Some [BooleanArray [Some True, None, Some False],
                             OtherArray 23 [Some (), Some (), None]]\<rparr>]\<rparr>"

text \<open>A directory in which one file is reached under two spellings of its path.\<close>

definition two_spellings :: file_system where
  "two_spellings p =
     (if p = ''t.parquet'' \<or> p = ''./t.parquet'' then Opened (numbered_file [2]) else MemoryMapFailed)"

definition empty_cache :: cache_state where
  "empty_cache = \<lparr>reader_cache = [], opens = 0\<rparr>"

section \<open>Lemmas on words, lists and the loops\<close>

lemma sint_add64:
  fixes a b :: int64
  assumes "0 \<le> sint a" "0 \<le> sint b" "sint a + sint b < 2 ^ 63"
  shows "sint (a + b) = sint a + sint b"
proof -
  have "sint (a + b) = signed_take_bit 63 (sint a + sint b)"
    by (simp add: sint_word_ariths)
  also have "\<dots> = sint a + sint b"
    using assms by (intro signed_take_bit_int_eq_self) simp_all
  finally show ?thesis .
qed

lemma sint_scast_32_64: "sint (scast (w :: int32) :: int64) = sint w"
  by (simp add: sint_up_scast is_up)

lemma sint_sub64:
  fixes a b :: int64
  assumes "- (2 ^ 63) \<le> sint a - sint b" "sint a - sint b < 2 ^ 63"
  shows "sint (a - b) = sint a - sint b"
proof -
  have "sint (a - b) = signed_take_bit 63 (sint a - sint b)"
    by (simp add: sint_word_ariths)
  also have "\<dots> = sint a - sint b"
    using assms by (intro signed_take_bit_int_eq_self) simp_all
  finally show ?thesis .
qed

lemma sint_add32:
  fixes a b :: int32
  assumes "- (2 ^ 31) \<le> sint a + sint b" "sint a + sint b < 2 ^ 31"
  shows "sint (a + b) = sint a + sint b"
proof -
  have "sint (a + b) = signed_take_bit 31 (sint a + sint b)"
    by (simp add: sint_word_ariths)
  also have "\<dots> = sint a + sint b"
    using assms by (intro signed_take_bit_int_eq_self) simp_all
  finally show ?thesis .
qed

text \<open>The narrowing of \<open>int64_t\<close> to \<open>int\<close> keeps a value that fits 32 bits.\<close>

lemma sint_ucast_64_32:
  fixes w :: int64
  assumes "- (2 ^ 31) \<le> sint w" "sint w < 2 ^ 31"
  shows "sint (ucast w :: int32) = sint w"
proof -
  have "(ucast w :: int32) = word_of_int (take_bit 64 (sint w))"
    by (simp add: ucast_eq uint_sint)
  also have "\<dots> = word_of_int (sint w)"
    by (rule wi_bintr) simp
  finally have "sint (ucast w :: int32) = sint (word_of_int (sint w) :: int32)"
    by (simp only:)
  also have "\<dots> = signed_take_bit 31 (sint w)"
    unfolding sint_sbintrunc' by simp
  also have "\<dots> = sint w"
    using assms by (intro signed_take_bit_int_eq_self) simp_all
  finally show ?thesis .
qed

lemma sint_min64: "sint (min64 a b) = min (sint a) (sint b)"
  by (auto simp: min64_def word_sless_alt)

lemma running_total_0 [simp]: "running_total sizes 0 = 0"
  by (simp add: running_total_def)

lemma running_total_Suc [simp]: "running_total (s # sizes) (Suc k) = sint s + running_total sizes k"
  by (simp add: running_total_def)

lemma sum_list_take_nonneg:
  "list_all (\<lambda>s. 0 \<le> sint s) sizes \<Longrightarrow> 0 \<le> sum_list (map sint (take k sizes))"
  by (induction sizes arbitrary: k) (auto simp: take_Cons split: nat.splits)

lemma running_total_nonneg:
  "list_all (\<lambda>s. 0 \<le> sint s) sizes \<Longrightarrow> 0 \<le> running_total sizes k"
  by (simp add: running_total_def sum_list_take_nonneg)

lemma sum_list_nonneg64:
  "list_all (\<lambda>s. 0 \<le> sint s) sizes \<Longrightarrow> 0 \<le> sum_list (map sint sizes)"
  by (induction sizes) auto

lemma running_total_step:
  "k < length sizes \<Longrightarrow> running_total sizes (Suc k) = running_total sizes k + sint (sizes ! k)"
  by (simp add: running_total_def take_Suc_conv_app_nth)

lemma running_total_mono:
  assumes "list_all (\<lambda>s. 0 \<le> sint s) sizes" "j \<le> k"
  shows "running_total sizes j \<le> running_total sizes k"
proof -
  have "take k sizes = take j sizes @ take (k - j) (drop j sizes)"
    using assms(2) by (metis le_add_diff_inverse take_add)
  moreover have "list_all (\<lambda>s. 0 \<le> sint s) (drop j sizes)"
    using assms(1) by (auto simp: list_all_iff dest: in_set_dropD)
  then have "0 \<le> sum_list (map sint (take (k - j) (drop j sizes)))"
    by (rule sum_list_take_nonneg)
  ultimately show ?thesis
    by (simp add: running_total_def)
qed

lemma upt_Suc_shift: "[0..<Suc n] = 0 # map Suc [0..<n]"
  by (simp add: upt_conv_Cons map_Suc_upt del: upt_Suc)

lemma filter_eq_upt: "k < n \<Longrightarrow> filter (\<lambda>j. j = k) [0..<n] = [k]"
  by (induction n) (auto simp: less_Suc_eq filter_empty_conv)

lemma interval_meets:
  fixes a b c d :: int
  shows "({a..<b} \<inter> {c..<d} \<noteq> {}) = (a < b \<and> c < d \<and> a < d \<and> c < b)"
  by (auto simp: set_eq_iff) (metis atLeastLessThan_iff max.cobounded1 max.cobounded2 max_less_iff_conj order_refl IntI empty_iff)

text \<open>
  The first loop, from any row group \<open>rg\<close> and running total \<open>c\<close> on: it selects the row
  groups that satisfy its test, and leaving the loop early loses none of them.
\<close>

lemma select_row_groups_filter:
  fixes sizes :: "int64 list"
  assumes "list_all (\<lambda>s. 0 \<le> sint s) sizes" "0 \<le> sint c" "sint c + sum_list (map sint sizes) < 2 ^ 63"
  shows "select_row_groups sizes start_row end_row rg c =
           map (\<lambda>k. rg + k)
             (filter (\<lambda>k. sint start_row < sint c + running_total sizes k + sint (sizes ! k)
                         \<and> sint c + running_total sizes k < sint end_row)
                [0..<length sizes])"
  using assms
proof (induction sizes arbitrary: rg c)
  case Nil
  then show ?case by simp
next
  case (Cons s sizes)
  have s0: "0 \<le> sint s" and rest: "list_all (\<lambda>s. 0 \<le> sint s) sizes"
    using Cons.prems(1) by simp_all
  have tot: "0 \<le> sum_list (map sint sizes)"
    using rest by (rule sum_list_nonneg64)
  have add: "sint (c + s) = sint c + sint s"
    using Cons.prems s0 tot by (intro sint_add64) simp_all
  have c': "0 \<le> sint (c + s)" "sint (c + s) + sum_list (map sint sizes) < 2 ^ 63"
    using Cons.prems s0 add by simp_all
  define P where "P = (\<lambda>k. sint start_row < sint c + running_total (s # sizes) k + sint ((s # sizes) ! k)
                 \<and> sint c + running_total (s # sizes) k < sint end_row)"
  define Q where "Q = (\<lambda>k. sint start_row < sint (c + s) + running_total sizes k + sint (sizes ! k)
                 \<and> sint (c + s) + running_total sizes k < sint end_row)"
  note IH = Cons.IH [OF rest c', of "Suc rg", folded Q_def]
  have PQ: "P (Suc k) = Q k" for k
    by (simp add: P_def Q_def add add.assoc)
  have split: "filter P [0..<length (s # sizes)] =
                 (if P 0 then [0] else []) @ map Suc (filter Q [0..<length sizes])"
    unfolding length_Cons upt_Suc_shift by (simp add: filter_map comp_def PQ)
  have head: "(scast start_row <s c + s \<and> c <s end_row) = P 0"
    by (simp add: P_def word_sless_alt sint_scast_32_64 add)
  have goal: "select_row_groups (s # sizes) start_row end_row rg c =
                map (\<lambda>k. rg + k) (filter P [0..<length (s # sizes)])"
  proof (cases "end_row \<le>s c + s")
    case True
    have "\<not> Q k" for k
      using True running_total_nonneg [OF rest, of k] by (simp add: Q_def word_sle_eq)
    then have "filter Q [0..<length sizes] = []"
      by simp
    with True head show ?thesis
      unfolding split by simp
  next
    case False
    with head IH show ?thesis
      unfolding split by (simp add: comp_def)
  qed
  then show ?case
    by (simp only: P_def)
qed

lemma select_row_groups_bound:
  "k \<in> set (select_row_groups sizes s e rg c) \<Longrightarrow> rg \<le> k \<and> k < rg + length sizes"
proof (induction sizes arbitrary: rg c)
  case Nil
  then show ?case by simp
next
  case (Cons x sizes)
  then show ?case
    by (fastforce simp: Let_def split: if_splits)
qed

lemma those_None: "those xs = None \<Longrightarrow> None \<in> set xs"
  by (induction xs) (auto split: option.splits)

lemma ReadRowGroups_None:
  assumes "ReadRowGroups f idxs = None" and "\<And>i. i \<in> set idxs \<Longrightarrow> i < length (row_groups f)"
  shows "schema f = None \<or> list_ex (\<lambda>rg. rg_columns rg = None) (row_groups f)"
proof (cases "schema f")
  case None
  then show ?thesis by simp
next
  case (Some flds)
  with assms(1) have "those (map rg_columns (map (\<lambda>rg. row_groups f ! rg) idxs)) = None"
    by (simp add: ReadRowGroups_def Let_def split: option.splits)
  then have "None \<in> set (map rg_columns (map (\<lambda>rg. row_groups f ! rg) idxs))"
    by (rule those_None)
  then obtain i where "i \<in> set idxs" "rg_columns (row_groups f ! i) = None"
    by auto
  with assms(2) show ?thesis
    by (auto simp: list_ex_iff intro!: bexI [of _ "row_groups f ! i"])
qed

text \<open>The null pointer comes out of \<open>read_rows\<close> only when Arrow cannot read the file.\<close>

lemma read_rows_null:
  assumes "read_rows f start_row num_rows = Inr None"
  shows "schema f = None \<or> list_ex (\<lambda>rg. rg_columns rg = None) (row_groups f)"
proof -
  define sel where "sel = select_row_groups (map rg_num_rows (row_groups f)) start_row
      (min64 (scast (start_row + num_rows)) (md_num_rows f)) 0 0"
  have b: "i < length (row_groups f)" if "i \<in> set sel" for i
    using select_row_groups_bound [of i "map rg_num_rows (row_groups f)"] that
    unfolding sel_def by fastforce
  from assms have "ReadTable f = None \<or> ReadRowGroups f sel = None"
    unfolding read_rows_def Let_def sel_def
    by (auto split: if_splits option.splits sum.splits)
  then show ?thesis
    using ReadRowGroups_None [of f sel] ReadRowGroups_None [of f "[0..<length (row_groups f)]"] b
    by (auto simp: ReadTable_def)
qed

section \<open>Lemmas on the reader cache\<close>

lemma get_cached_reader_hit:
  "map_of (reader_cache st) p = Some r \<Longrightarrow> get_cached_reader fs p st = (Some r, st)"
  by (simp add: get_cached_reader_def)

lemma get_cached_reader_failed:
  "map_of (reader_cache st) p = None \<Longrightarrow> \<forall>f. fs p \<noteq> Opened f \<Longrightarrow>
   get_cached_reader fs p st = (None, st\<lparr>opens := Suc (opens st)\<rparr>)"
  by (cases "fs p") (simp_all add: get_cached_reader_def)

lemma get_cached_reader_keeps:
  "map_of (reader_cache st) p = Some r \<Longrightarrow>
   map_of (reader_cache (snd (get_cached_reader fs q st))) p = Some r"
proof (cases "map_of (reader_cache st) q")
  case None
  assume a: "map_of (reader_cache st) p = Some r"
  with None have "q \<noteq> p" by auto
  with a None show ?thesis
    by (cases "fs q") (simp_all add: get_cached_reader_def update_conv' Let_def)
next
  case (Some r')
  assume "map_of (reader_cache st) p = Some r"
  with Some show ?thesis by (simp add: get_cached_reader_def)
qed

lemma fold_get_cached_reader_keeps:
  "map_of (reader_cache st) p = Some r \<Longrightarrow>
   map_of (reader_cache (fold (\<lambda>(fs, q) s. snd (get_cached_reader fs q s)) calls st)) p = Some r"
  by (induction calls arbitrary: st) (auto simp: get_cached_reader_keeps)

lemma get_cached_reader_distinct:
  "distinct (map fst (reader_cache st)) \<Longrightarrow>
   distinct (map fst (reader_cache (snd (get_cached_reader fs q st))))"
  by (cases "fs q") (auto simp: get_cached_reader_def distinct_update Let_def split: option.splits)

lemma get_cached_reader_Some_cached:
  "get_cached_reader fs p st = (Some r, st') \<Longrightarrow> map_of (reader_cache st') p = Some r"
  by (cases "fs p") (auto simp: get_cached_reader_def update_conv' Let_def split: option.splits)

lemma clear_absent: "map_of (reader_cache st) p = None \<Longrightarrow> clear_parquet_cache p st = st"
  by (simp add: clear_parquet_cache_def delete_id map_of_eq_None_iff)

lemma first_open:
  "get_cached_reader two_spellings ''t.parquet'' empty_cache =
     (Some \<lparr>handle = 0, opened = numbered_file [2]\<rparr>,
      \<lparr>reader_cache = [(''t.parquet'', \<lparr>handle = 0, opened = numbered_file [2]\<rparr>)], opens = 1\<rparr>)"
  by (simp add: get_cached_reader_def two_spellings_def empty_cache_def Let_def)

section \<open>The window within the selected row groups\<close>

text \<open>
  Claim C1. The offset of the window in the table that was read should be \<open>start_row\<close>
  minus the rows of all row groups before the first selected one; for ten row groups of
  100 rows and the request \<open>start_row = 250\<close>, \<open>num_rows = 10\<close> that is row group 2,
  offset 50 and the file rows 250 to 259. The code selects row group 2, but its second
  loop counts from 0 over the selected row groups only: \<open>0 + 100 > 250\<close> fails, the
  offset stays 0, and the rows returned are the file rows 200 to 209, where cutting the
  whole file to the window gives the rows 250 to 259.
\<close>

theorem offset_ignores_skipped_row_groups:
  "select_row_groups (replicate 10 100) 250 260 0 0 = [2]
   \<and> offset_in_table [100] 250 0 = 0
   \<and> read_rows (numbered_file (replicate 10 100)) 250 10 =
       Inr (Some \<lparr>data = Some [[Some ''200''], [Some ''201''], [Some ''202''], [Some ''203''],
                              [Some ''204''], [Some ''205''], [Some ''206''], [Some ''207''],
                              [Some ''208''], [Some ''209'']],
                  row_count = 10, column_count = 1\<rparr>)
   \<and> whole_file_window (numbered_file (replicate 10 100)) 250 10 =
       Inr (Some \<lparr>data = Some [[Some ''250''], [Some ''251''], [Some ''252''], [Some ''253''],
                              [Some ''254''], [Some ''255''], [Some ''256''], [Some ''257''],
                              [Some ''258''], [Some ''259'']],
                  row_count = 10, column_count = 1\<rparr>)"
  by code_simp

text \<open>
  Claim C2. For a window that crosses row groups, reading the selected row groups and
  cutting them to the window should give the rows that reading the whole file and cutting
  it to the window gives. With row groups of 2, 1 and 2 rows and the window of the rows
  2 and 3, the code selects the row groups 1 and 2, computes the offset 1 in their three
  rows and returns the file rows 3 and 4.
\<close>

theorem selected_read_differs_from_whole_file:
  "read_rows (numbered_file [2, 1, 2]) 2 2 =
     Inr (Some \<lparr>data = Some [[Some ''3''], [Some ''4'']], row_count = 2, column_count = 1\<rparr>)
   \<and> whole_file_window (numbered_file [2, 1, 2]) 2 2 =
     Inr (Some \<lparr>data = Some [[Some ''2''], [Some ''3'']], row_count = 2, column_count = 1\<rparr>)
   \<and> read_rows (numbered_file [2, 1, 2]) 2 2 \<noteq> whole_file_window (numbered_file [2, 1, 2]) 2 2"
proof -
  have a: "read_rows (numbered_file [2, 1, 2]) 2 2 =
     Inr (Some \<lparr>data = Some [[Some ''3''], [Some ''4'']], row_count = 2, column_count = 1\<rparr>)"
    by code_simp
  have b: "whole_file_window (numbered_file [2, 1, 2]) 2 2 =
     Inr (Some \<lparr>data = Some [[Some ''2''], [Some ''3'']], row_count = 2, column_count = 1\<rparr>)"
    by code_simp
  show ?thesis
    unfolding a b by simp
qed

section \<open>The number of rows of the result\<close>

lemma read_rows_row_count:
  assumes "read_rows f start_row num_rows = Inr (Some d)"
  shows "row_count d = ucast (min64 (scast (start_row + num_rows)) (md_num_rows f) - scast start_row)"
  using assms unfolding read_rows_def Let_def
  by (auto split: if_splits option.splits sum.splits)

text \<open>
  For a request that does not start below 0, asks for no negative number of rows and whose
  end fits 32 bits, the \<open>row_count\<close> of a table that is returned is the smaller of
  \<open>num_rows\<close> and \<open>total_rows - start_row\<close>. Nothing keeps it from being negative.
\<close>

lemma row_count_clamped:
  assumes "read_rows f start_row num_rows = Inr (Some d)"
    and "0 \<le> sint start_row" and "0 \<le> sint num_rows"
    and "sint start_row + sint num_rows < 2 ^ 31"
    and "0 \<le> sint (md_num_rows f)"
  shows "sint (row_count d) = min (sint num_rows) (sint (md_num_rows f) - sint start_row)"
proof -
  define e where "e = min64 (scast (start_row + num_rows)) (md_num_rows f)"
  have s: "sint (start_row + num_rows) = sint start_row + sint num_rows"
    using assms(2-4) by (intro sint_add32) simp_all
  have e: "sint e = min (sint start_row + sint num_rows) (sint (md_num_rows f))"
    by (simp add: e_def sint_min64 sint_scast_32_64 s)
  have b: "sint start_row < 2147483648"
    using sint_lt [of start_row] by simp
  have "sint (e - scast start_row) = sint e - sint (scast start_row :: int64)"
    using e assms(2-5) b by (intro sint_sub64) (simp_all add: sint_scast_32_64)
  then have d: "sint (e - scast start_row) = sint e - sint start_row"
    by (simp add: sint_scast_32_64)
  have "sint (ucast (e - scast start_row) :: int32) = sint (e - scast start_row)"
    using d e assms(2-5) b by (intro sint_ucast_64_32) simp_all
  then show ?thesis
    using read_rows_row_count [OF assms(1)] d e by (simp add: e_def [symmetric])
qed

text \<open>
  Claim C3. A request that starts at or after the last row should return a table whose
  \<open>row_count\<close> is 0. The code returns, for a file of 1000 rows and \<open>start_row = 1005\<close>,
  a table without data and without columns whose \<open>row_count\<close> is still the difference
  \<open>end_row - start_row\<close>, which is -5.
\<close>

theorem row_count_negative_past_the_end:
  "read_rows (numbered_file (replicate 10 100)) 1005 10 =
     Inr (Some \<lparr>data = None, row_count = - 5, column_count = 0\<rparr>)"
  by code_simp

section \<open>The selection of row groups\<close>

text \<open>
  Claim C4, as stated: a row group is selected exactly when its interval of rows meets the
  window. It fails on a row group without rows that lies inside the window: with the sizes
  100, 0 and 100 and the window from 50 to 150, row group 1 is selected although its
  interval from 100 to 100 is empty.
\<close>

theorem empty_row_group_selected:
  "1 \<in> set (select_row_groups [100, 0, 100] 50 150 0 0)
   \<and> {running_total [100, 0, 100] 1 ..< running_total [100, 0, 100] 1 + sint (0 :: int64)}
       \<inter> {sint (50 :: int32) ..< sint (150 :: int64)} = {}"
proof -
  have "select_row_groups [100, 0, 100] 50 150 0 0 = [0, 1, 2]"
    by code_simp
  then show ?thesis by simp
qed

text \<open>
  Claim C4, amended. For row counts that are not negative and whose sum fits 64 bits, and
  for every window: the selected row groups are those, in order, whose running total is
  below \<open>end_row\<close> and whose running total plus size is above \<open>start_row\<close>; for a row
  group with at least one row and a window that is not empty this is to say that its
  interval meets the window; no row group whose running total has reached \<open>end_row\<close> is
  selected; and a window that lies within one row group selects that row group alone.
\<close>

theorem row_group_selection:
  assumes "list_all (\<lambda>s. 0 \<le> sint s) sizes" and "sum_list (map sint sizes) < 2 ^ 63"
  shows "select_row_groups sizes start_row end_row 0 0 =
           filter (\<lambda>k. sint start_row < running_total sizes k + sint (sizes ! k)
                       \<and> running_total sizes k < sint end_row) [0..<length sizes]
       \<and> (k < length sizes \<and> 0 < sint (sizes ! k) \<and> sint start_row < sint end_row \<longrightarrow>
            (k \<in> set (select_row_groups sizes start_row end_row 0 0) \<longleftrightarrow>
             {running_total sizes k ..< running_total sizes k + sint (sizes ! k)}
               \<inter> {sint start_row ..< sint end_row} \<noteq> {}))
       \<and> (k \<in> set (select_row_groups sizes start_row end_row 0 0) \<longrightarrow>
            k < length sizes \<and> running_total sizes k < sint end_row)
       \<and> (k < length sizes \<and> running_total sizes k \<le> sint start_row \<and> sint start_row < sint end_row
            \<and> sint end_row \<le> running_total sizes k + sint (sizes ! k) \<longrightarrow>
            select_row_groups sizes start_row end_row 0 0 = [k])"
proof -
  define P where "P = (\<lambda>k. sint start_row < running_total sizes k + sint (sizes ! k)
                       \<and> running_total sizes k < sint end_row)"
  have sel: "select_row_groups sizes start_row end_row 0 0 = filter P [0..<length sizes]"
    using select_row_groups_filter [OF assms(1), of 0 start_row end_row 0] assms(2)
    by (simp add: P_def)
  have mem: "k \<in> set (select_row_groups sizes start_row end_row 0 0) \<longleftrightarrow> k < length sizes \<and> P k"
    unfolding sel by auto
  have 2: "k < length sizes \<and> 0 < sint (sizes ! k) \<and> sint start_row < sint end_row \<longrightarrow>
            (k \<in> set (select_row_groups sizes start_row end_row 0 0) \<longleftrightarrow>
             {running_total sizes k ..< running_total sizes k + sint (sizes ! k)}
               \<inter> {sint start_row ..< sint end_row} \<noteq> {})"
    unfolding mem interval_meets P_def by auto
  have 3: "k \<in> set (select_row_groups sizes start_row end_row 0 0) \<longrightarrow>
            k < length sizes \<and> running_total sizes k < sint end_row"
    unfolding mem P_def by simp
  have 4: "select_row_groups sizes start_row end_row 0 0 = [k]"
    if k: "k < length sizes" and lo: "running_total sizes k \<le> sint start_row"
      and ne: "sint start_row < sint end_row"
      and hi: "sint end_row \<le> running_total sizes k + sint (sizes ! k)"
  proof -
    have "P j \<longleftrightarrow> j = k" if j: "j < length sizes" for j
    proof (cases j k rule: linorder_cases)
      case less
      then have "running_total sizes (Suc j) \<le> running_total sizes k"
        using assms(1) by (intro running_total_mono) simp_all
      then show ?thesis
        using less lo j by (simp add: P_def running_total_step)
    next
      case equal
      then show ?thesis using lo ne hi by (simp add: P_def)
    next
      case greater
      then have "running_total sizes (Suc k) \<le> running_total sizes j"
        using assms(1) by (intro running_total_mono) simp_all
      then show ?thesis
        using greater hi k by (simp add: P_def running_total_step)
    qed
    then have "filter P [0..<length sizes] = filter (\<lambda>j. j = k) [0..<length sizes]"
      by (intro filter_cong) simp_all
    then show ?thesis
      using k by (simp add: sel filter_eq_upt)
  qed
  show ?thesis
    using sel 2 3 4 unfolding P_def by blast
qed

text \<open>
  Claim C4, on ten row groups of 100 rows and the window from 250 to 260: the hypotheses
  hold, row group 2 alone is selected, and its interval meets the window.
\<close>

theorem row_group_selection_witness:
  "list_all (\<lambda>s. 0 \<le> sint s) (replicate 10 (100 :: int64))
   \<and> sum_list (map sint (replicate 10 (100 :: int64))) < 2 ^ 63
   \<and> running_total (replicate 10 100) 2 \<le> sint (250 :: int32)
   \<and> sint (250 :: int32) < sint (260 :: int64)
   \<and> sint (260 :: int64) \<le> running_total (replicate 10 100) 2 + sint (replicate 10 (100 :: int64) ! 2)
   \<and> select_row_groups (replicate 10 100) 250 260 0 0 = [2]
   \<and> {running_total (replicate 10 100) 2 ..< running_total (replicate 10 100) 2 + sint (replicate 10 (100 :: int64) ! 2)}
       \<inter> {sint (250 :: int32) ..< sint (260 :: int64)} \<noteq> {}"
proof -
  have a: "list_all (\<lambda>s. 0 \<le> sint s) (replicate 10 (100 :: int64))"
    by code_simp
  have b: "sum_list (map sint (replicate 10 (100 :: int64))) < 2 ^ 63"
    by code_simp
  have r: "running_total (replicate 10 100) 2 = 200"
    by code_simp
  have n: "replicate 10 (100 :: int64) ! 2 = 100" "length (replicate 10 (100 :: int64)) = 10"
    by simp_all
  have h: "2 < length (replicate 10 (100 :: int64))
           \<and> running_total (replicate 10 100) 2 \<le> sint (250 :: int32)
           \<and> sint (250 :: int32) < sint (260 :: int64)
           \<and> sint (260 :: int64) \<le> running_total (replicate 10 100) 2 + sint (replicate 10 (100 :: int64) ! 2)"
    using r n by simp
  have p: "2 < length (replicate 10 (100 :: int64)) \<and> 0 < sint (replicate 10 (100 :: int64) ! 2)
           \<and> sint (250 :: int32) < sint (260 :: int64)"
    using n by simp
  note t = row_group_selection [OF a b, of 250 260 2]
  have s: "select_row_groups (replicate 10 100) 250 260 0 0 = [2]"
    using t h by blast
  have m: "2 \<in> set (select_row_groups (replicate 10 100) 250 260 0 0)"
    by (simp add: s)
  have i: "{running_total (replicate 10 100) 2 ..< running_total (replicate 10 100) 2 + sint (replicate 10 (100 :: int64) ! 2)}
       \<inter> {sint (250 :: int32) ..< sint (260 :: int64)} \<noteq> {}"
    using t p m by blast
  show ?thesis
    using a b h s i by blast
qed

section \<open>A path that cannot be opened\<close>

text \<open>
  Claim C5. When a path is not in the cache and opening it fails, in any of the four ways,
  \<open>read_parquet_schema\<close> and \<open>read_parquet_data\<close> both return the null pointer, and the
  cache is left as it was, without an entry for the path.
\<close>

theorem open_failure_returns_null:
  assumes "map_of (reader_cache st) p = None" and "\<forall>f. fs p \<noteq> Opened f"
  shows "fst (read_parquet_schema fs p st) = None
       \<and> fst (read_parquet_data fs p start_row num_rows st) = Inr None
       \<and> reader_cache (snd (read_parquet_schema fs p st)) = reader_cache st
       \<and> reader_cache (snd (read_parquet_data fs p start_row num_rows st)) = reader_cache st
       \<and> map_of (reader_cache (snd (read_parquet_schema fs p st))) p = None
       \<and> map_of (reader_cache (snd (read_parquet_data fs p start_row num_rows st))) p = None"
  using assms
  by (simp add: read_parquet_schema_def read_parquet_data_def get_cached_reader_failed)

text \<open>Claim C5, on a path that does not exist and an empty cache.\<close>

theorem open_failure_returns_null_witness:
  "map_of (reader_cache empty_cache) ''missing.parquet'' = None
   \<and> (\<forall>f. two_spellings ''missing.parquet'' \<noteq> Opened f)
   \<and> fst (read_parquet_schema two_spellings ''missing.parquet'' empty_cache) = None
   \<and> fst (read_parquet_data two_spellings ''missing.parquet'' 0 10 empty_cache) = Inr None
   \<and> reader_cache (snd (read_parquet_data two_spellings ''missing.parquet'' 0 10 empty_cache)) = []"
proof -
  have a: "map_of (reader_cache empty_cache) ''missing.parquet'' = None"
    by (simp add: empty_cache_def)
  have b: "\<forall>f. two_spellings ''missing.parquet'' \<noteq> Opened f"
    by (simp add: two_spellings_def)
  have c: "reader_cache empty_cache = []"
    by (simp add: empty_cache_def)
  show ?thesis
    using open_failure_returns_null
            [of empty_cache "''missing.parquet''" two_spellings 0 10, OF a b] a b c
    by simp
qed

section \<open>The strings of null, boolean and unsupported cells\<close>

text \<open>
  Claim C6. In a chunk of any type a null slot gives \<open>NULL\<close>; a slot of a boolean chunk
  gives \<open>true\<close> or \<open>false\<close>; a slot that is not null of a chunk whose type has no case
  in the \<open>switch\<close> gives \<open>UNSUPPORTED\<close>. Every slot of every chunk gets a string, and
  the request returns the null pointer only when the schema or a row group cannot be
  read, whatever the types of the columns.
\<close>

theorem stringify_null_bool_unsupported:
  assumes "i < chunk_length c"
  shows "length (stringify c) = chunk_length c
       \<and> (IsNull c i \<longrightarrow> stringify c ! i = ''NULL'')
       \<and> (c = BooleanArray vs \<and> vs ! i = Some True \<longrightarrow> stringify c ! i = ''true'')
       \<and> (c = BooleanArray vs \<and> vs ! i = Some False \<longrightarrow> stringify c ! i = ''false'')
       \<and> (chunk_type_id c = OTHER n \<and> \<not> IsNull c i \<longrightarrow> stringify c ! i = ''UNSUPPORTED'')
       \<and> (read_rows f start_row num_rows = Inr None \<longrightarrow>
            schema f = None \<or> list_ex (\<lambda>rg. rg_columns rg = None) (row_groups f))"
proof -
  have "length (stringify c) = chunk_length c
       \<and> (IsNull c i \<longrightarrow> stringify c ! i = ''NULL'')
       \<and> (c = BooleanArray vs \<and> vs ! i = Some True \<longrightarrow> stringify c ! i = ''true'')
       \<and> (c = BooleanArray vs \<and> vs ! i = Some False \<longrightarrow> stringify c ! i = ''false'')
       \<and> (chunk_type_id c = OTHER n \<and> \<not> IsNull c i \<longrightarrow> stringify c ! i = ''UNSUPPORTED'')"
    using assms by (cases c) (auto simp: null_or_def)
  then show ?thesis
    using read_rows_null [of f start_row num_rows] by blast
qed

text \<open>
  Claim C6, on a boolean chunk with a null slot, on a chunk of an unsupported type, on
  the file that holds both, and on that file with an unreadable schema.
\<close>

theorem stringify_null_bool_unsupported_witness:
  "stringify (BooleanArray [Some True, None, Some False]) = [''true'', ''NULL'', ''false'']
   \<and> IsNull (OtherArray 23 [Some (), Some (), None]) 2
   \<and> stringify (OtherArray 23 [Some (), Some (), None]) ! 2 = ''NULL''
   \<and> \<not> IsNull (OtherArray 23 [Some (), Some (), None]) 0
   \<and> stringify (OtherArray 23 [Some (), Some (), None]) ! 0 = ''UNSUPPORTED''
   \<and> read_rows mixed_file 0 3 =
       Inr (Some \<lparr>data = Some [[Some ''true'', Some ''UNSUPPORTED''],
                              [Some ''NULL'', Some ''UNSUPPORTED''],
                              [Some ''false'', Some ''NULL'']],
                  row_count = 3, column_count = 2\<rparr>)
   \<and> read_rows (mixed_file\<lparr>schema := None\<rparr>) 0 3 = Inr None
   \<and> schema (mixed_file\<lparr>schema := None\<rparr>) = None"
proof -
  let ?b = "BooleanArray [Some True, None, Some False]"
  let ?o = "OtherArray 23 [Some (), Some (), None]"
  have b0: "stringify ?b ! 0 = ''true''"
    using stringify_null_bool_unsupported [of 0 ?b "[Some True, None, Some False]"] by simp
  have b1: "stringify ?b ! 1 = ''NULL''"
    using stringify_null_bool_unsupported [of 1 ?b] by simp
  have b2: "stringify ?b ! 2 = ''false''"
    using stringify_null_bool_unsupported [of 2 ?b "[Some True, None, Some False]"] by simp
  have bl: "length (stringify ?b) = 3"
    using stringify_null_bool_unsupported [of 0 ?b] by simp
  have b: "stringify ?b = [''true'', ''NULL'', ''false'']"
    using b0 b1 b2 bl by (intro nth_equalityI) (auto simp: less_Suc_eq numeral_3_eq_3)
  have o2: "IsNull ?o 2 \<and> stringify ?o ! 2 = ''NULL''"
    using stringify_null_bool_unsupported [of 2 ?o] by simp
  have o0: "\<not> IsNull ?o 0 \<and> stringify ?o ! 0 = ''UNSUPPORTED''"
    using stringify_null_bool_unsupported [of 0 ?o _ 23] by simp
  have r: "read_rows mixed_file 0 3 =
       Inr (Some \<lparr>data = Some [[Some ''true'', Some ''UNSUPPORTED''],
                              [Some ''NULL'', Some ''UNSUPPORTED''],
                              [Some ''false'', Some ''NULL'']],
                  row_count = 3, column_count = 2\<rparr>)"
    by code_simp
  have n: "read_rows (mixed_file\<lparr>schema := None\<rparr>) 0 3 = Inr None"
    by code_simp
  have s: "schema (mixed_file\<lparr>schema := None\<rparr>) = None"
    by simp
  show ?thesis
    using b o2 o0 r n s by blast
qed

section \<open>Readers are reused\<close>

text \<open>
  Claim C7, as stated: the cache holds at most one reader for a normalized path. The code
  does not normalize: the key is the string it was given. A file reached as
  \<open>t.parquet\<close> and then as \<open>./t.parquet\<close> is opened twice, and the cache holds two
  readers of it.
\<close>

theorem two_spellings_two_readers:
  "map (\<lambda>(p, r). (p, handle r, opened r = numbered_file [2]))
       (reader_cache (snd (get_cached_reader two_spellings ''./t.parquet''
                            (snd (get_cached_reader two_spellings ''t.parquet'' empty_cache)))))
     = [(''t.parquet'', 0, True), (''./t.parquet'', 1, True)]
   \<and> opens (snd (get_cached_reader two_spellings ''./t.parquet''
                   (snd (get_cached_reader two_spellings ''t.parquet'' empty_cache)))) = 2"
  by (simp add: first_open) (simp add: get_cached_reader_def two_spellings_def Let_def)

text \<open>
  Claim C7, amended. Once a path string has been given a reader, every later call with
  the same string returns that reader and leaves the cache and the count of opens as
  they are, whatever has become of the file, and also after any further calls of
  \<open>get_cached_reader\<close>, for this path or for others;
  and the cache never holds two entries for one path string.
\<close>

theorem acquire_idempotent:
  assumes "get_cached_reader fs p st = (Some r, st')"
  shows "get_cached_reader fs' p st' = (Some r, st')
       \<and> get_cached_reader fs' p (fold (\<lambda>(fs, q) s. snd (get_cached_reader fs q s)) calls st')
           = (Some r, fold (\<lambda>(fs, q) s. snd (get_cached_reader fs q s)) calls st')
       \<and> (distinct (map fst (reader_cache st)) \<longrightarrow> distinct (map fst (reader_cache st')))"
proof -
  have c: "map_of (reader_cache st') p = Some r"
    using assms by (rule get_cached_reader_Some_cached)
  have 1: "get_cached_reader fs' p st' = (Some r, st')"
    using c by (rule get_cached_reader_hit)
  have 2: "get_cached_reader fs' p (fold (\<lambda>(fs, q) s. snd (get_cached_reader fs q s)) calls st')
           = (Some r, fold (\<lambda>(fs, q) s. snd (get_cached_reader fs q s)) calls st')"
    using c by (intro get_cached_reader_hit fold_get_cached_reader_keeps)
  have 3: "distinct (map fst (reader_cache st)) \<longrightarrow> distinct (map fst (reader_cache st'))"
    using get_cached_reader_distinct [of st fs p] assms by simp
  show ?thesis using 1 2 3 by blast
qed

text \<open>
  Claim C7, on the first open of \<open>t.parquet\<close>: a second call returns reader 0 without
  an open, also when the file can no longer be opened.
\<close>

theorem acquire_idempotent_witness:
  "get_cached_reader two_spellings ''t.parquet'' empty_cache =
     (Some \<lparr>handle = 0, opened = numbered_file [2]\<rparr>,
      \<lparr>reader_cache = [(''t.parquet'', \<lparr>handle = 0, opened = numbered_file [2]\<rparr>)], opens = 1\<rparr>)
   \<and> get_cached_reader (\<lambda>p. MemoryMapFailed) ''t.parquet''
       \<lparr>reader_cache = [(''t.parquet'', \<lparr>handle = 0, opened = numbered_file [2]\<rparr>)], opens = 1\<rparr> =
     (Some \<lparr>handle = 0, opened = numbered_file [2]\<rparr>,
      \<lparr>reader_cache = [(''t.parquet'', \<lparr>handle = 0, opened = numbered_file [2]\<rparr>)], opens = 1\<rparr>)
   \<and> distinct (map fst (reader_cache empty_cache))
   \<and> distinct (map fst [(''t.parquet'', \<lparr>handle = 0, opened = numbered_file [2]\<rparr>)])"
proof -
  have d: "distinct (map fst (reader_cache empty_cache))"
    by (simp add: empty_cache_def)
  show ?thesis
    using acquire_idempotent [OF first_open, of "\<lambda>p. MemoryMapFailed"] first_open d by simp
qed

section \<open>Clearing the cache\<close>

text \<open>
  Claim C8. \<open>clear_parquet_cache\<close> removes the entry of its path, changes nothing when
  there is none, and leaves the other paths alone. The next call for the path opens the
  file again: the count of opens goes up, also through \<open>read_parquet_schema\<close>, and the
  reader returned is a new one made from the file as it is then, never the reader that
  was cached before. \<open>clear_all_parquet_cache\<close> leaves no entry.
\<close>

theorem clear_then_reopen:
  "map_of (reader_cache (clear_parquet_cache p st)) p = None
   \<and> (map_of (reader_cache st) p = None \<longrightarrow> clear_parquet_cache p st = st)
   \<and> (q \<noteq> p \<longrightarrow> map_of (reader_cache (clear_parquet_cache p st)) q = map_of (reader_cache st) q)
   \<and> get_cached_reader fs p (clear_parquet_cache p st) =
           (case fs p of
              Opened f \<Rightarrow>
                (Some \<lparr>handle = opens st, opened = f\<rparr>,
                 \<lparr>reader_cache = AList.update p \<lparr>handle = opens st, opened = f\<rparr>
                                   (AList.delete p (reader_cache st)),
                  opens = Suc (opens st)\<rparr>)
            | _ \<Rightarrow> (None, \<lparr>reader_cache = AList.delete p (reader_cache st), opens = Suc (opens st)\<rparr>))
   \<and> opens (snd (read_parquet_schema fs p (clear_parquet_cache p st))) = Suc (opens st)
   \<and> (map_of (reader_cache st) p = Some r \<and> handle r < opens st \<longrightarrow>
        fst (get_cached_reader fs p (clear_parquet_cache p st)) \<noteq> Some r)
   \<and> reader_cache (clear_all_parquet_cache st) = []"
proof -
  have a: "map_of (reader_cache (clear_parquet_cache p st)) p = None"
    by (simp add: clear_parquet_cache_def delete_conv')
  have b: "map_of (reader_cache st) p = None \<longrightarrow> clear_parquet_cache p st = st"
    by (simp add: clear_absent)
  have c: "q \<noteq> p \<longrightarrow> map_of (reader_cache (clear_parquet_cache p st)) q = map_of (reader_cache st) q"
    by (simp add: clear_parquet_cache_def delete_conv')
  have g: "get_cached_reader fs p (clear_parquet_cache p st) =
           (case fs p of
              Opened f \<Rightarrow>
                (Some \<lparr>handle = opens st, opened = f\<rparr>,
                 \<lparr>reader_cache = AList.update p \<lparr>handle = opens st, opened = f\<rparr>
                                   (AList.delete p (reader_cache st)),
                  opens = Suc (opens st)\<rparr>)
            | _ \<Rightarrow> (None, \<lparr>reader_cache = AList.delete p (reader_cache st), opens = Suc (opens st)\<rparr>))"
    using a by (cases "fs p") (simp_all add: get_cached_reader_def clear_parquet_cache_def Let_def)
  have o: "opens (snd (read_parquet_schema fs p (clear_parquet_cache p st))) = Suc (opens st)"
    unfolding read_parquet_schema_def g
    by (cases "fs p") (simp_all split: option.splits)
  have n: "map_of (reader_cache st) p = Some r \<and> handle r < opens st \<longrightarrow>
        fst (get_cached_reader fs p (clear_parquet_cache p st)) \<noteq> Some r"
    unfolding g by (cases "fs p") auto
  have e: "reader_cache (clear_all_parquet_cache st) = []"
    by (simp add: clear_all_parquet_cache_def)
  show ?thesis using a b c g o n e by blast
qed

text \<open>
  Claim C8, on the cache that holds reader 0 for \<open>t.parquet\<close>: after the path is
  cleared the next call opens the file a second time and returns reader 1; and clearing
  a path of the empty cache changes nothing.
\<close>

theorem clear_then_reopen_witness:
  "map_of (reader_cache empty_cache) ''t.parquet'' = None
   \<and> clear_parquet_cache ''t.parquet'' empty_cache = empty_cache
   \<and> ''t.parquet'' \<noteq> ''./t.parquet''
   \<and> map_of (reader_cache (clear_parquet_cache ''./t.parquet''
          \<lparr>reader_cache = [(''t.parquet'', \<lparr>handle = 0, opened = numbered_file [2]\<rparr>)], opens = 1\<rparr>))
        ''t.parquet''
       = Some \<lparr>handle = 0, opened = numbered_file [2]\<rparr>
   \<and> map_of [(''t.parquet'', \<lparr>handle = 0, opened = numbered_file [2]\<rparr>)] ''t.parquet''
       = Some \<lparr>handle = 0, opened = numbered_file [2]\<rparr>
   \<and> fst (get_cached_reader two_spellings ''t.parquet''
            (clear_parquet_cache ''t.parquet''
               \<lparr>reader_cache = [(''t.parquet'', \<lparr>handle = 0, opened = numbered_file [2]\<rparr>)], opens = 1\<rparr>))
       = Some \<lparr>handle = 1, opened = numbered_file [2]\<rparr>
   \<and> opens (snd (read_parquet_schema two_spellings ''t.parquet''
            (clear_parquet_cache ''t.parquet''
               \<lparr>reader_cache = [(''t.parquet'', \<lparr>handle = 0, opened = numbered_file [2]\<rparr>)], opens = 1\<rparr>)))
       = 2"
proof -
  let ?st = "\<lparr>reader_cache = [(''t.parquet'', \<lparr>handle = 0, opened = numbered_file [2]\<rparr>)], opens = 1\<rparr>"
  have a: "map_of (reader_cache empty_cache) ''t.parquet'' = None"
    by (simp add: empty_cache_def)
  have b: "clear_parquet_cache ''t.parquet'' empty_cache = empty_cache"
    using clear_then_reopen [of "''t.parquet''" empty_cache] a by blast
  have k: "map_of (reader_cache (clear_parquet_cache ''./t.parquet'' ?st)) ''t.parquet''
             = Some \<lparr>handle = 0, opened = numbered_file [2]\<rparr>"
    using clear_then_reopen [of "''./t.parquet''" ?st "''t.parquet''"] by simp
  have f: "two_spellings ''t.parquet'' = Opened (numbered_file [2])"
    by (simp add: two_spellings_def)
  have g: "fst (get_cached_reader two_spellings ''t.parquet'' (clear_parquet_cache ''t.parquet'' ?st))
             = Some \<lparr>handle = 1, opened = numbered_file [2]\<rparr>"
    using clear_then_reopen [of "''t.parquet''" ?st _ two_spellings] by (simp add: f)
  have o: "opens (snd (read_parquet_schema two_spellings ''t.parquet''
             (clear_parquet_cache ''t.parquet'' ?st))) = 2"
    using clear_then_reopen [of "''t.parquet''" ?st _ two_spellings] by simp
  show ?thesis
    using a b k g o by simp
qed

section \<open>Releasing a result\<close>

text \<open>
  What is safe: releasing the null pointer, releasing the table without data that an
  empty window gives, and releasing whatever \<open>read_parquet_schema\<close> returns, since it
  assigns both strings of every column that it counts.
\<close>

lemma free_all_assigned:
  "list_all (\<lambda>p. p \<noteq> None) ps \<Longrightarrow> free_all ps = Inr (map the ps)"
  by (induction ps rule: free_all.induct) auto

lemma nat_sint_of_nat_le: "nat (sint (of_nat n :: int32)) \<le> n"
proof -
  have "(of_nat n :: int32) = word_of_int (int n)"
    by simp
  then have "sint (of_nat n :: int32) = sint (word_of_int (int n) :: int32)"
    by (simp only:)
  also have "\<dots> = signed_take_bit 31 (int n)"
    unfolding sint_sbintrunc' by simp
  also have "\<dots> \<le> int n"
    by (simp add: signed_take_bit_int_less_eq_self_iff)
  finally show ?thesis by simp
qed

lemma free_schema_info_safe:
  "\<exists>ss. free_schema_info (fst (read_parquet_schema fs p st)) = Inr ss"
proof (cases "fst (read_parquet_schema fs p st)")
  case None
  then show ?thesis by (simp add: free_schema_info_def)
next
  case (Some i)
  then have "\<exists>flds rows. i = \<lparr>columns = map (\<lambda>(n, t). \<lparr>name = Some n, type = Some t\<rparr>) flds,
                      info_column_count = of_nat (length flds),
                      info_row_count = rows\<rparr>"
    by (auto simp: read_parquet_schema_def split: prod.splits option.splits)
  then obtain flds rows where i: "i = \<lparr>columns = map (\<lambda>(n, t). \<lparr>name = Some n, type = Some t\<rparr>) flds,
                      info_column_count = of_nat (length flds),
                      info_row_count = rows\<rparr>"
    by blast
  have "list_all (\<lambda>p. p \<noteq> None)
          (concat (map (\<lambda>c. [name c, type c])
             (take k (map (\<lambda>(n, t). \<lparr>name = Some n, type = Some t\<rparr>) flds))))" for k
    by (auto simp: list_all_iff dest!: in_set_takeD)
  then show ?thesis
    using Some nat_sint_of_nat_le [of "length flds"]
    by (simp add: free_schema_info_def i Let_def free_all_assigned)
qed

lemma free_table_data_null: "free_table_data None = Inr []"
  by (simp add: free_table_data_def)

lemma free_table_data_empty:
  "free_table_data (Some \<lparr>data = None, row_count = n, column_count = 0\<rparr>) = Inr []"
  by (simp add: free_table_data_def)

text \<open>
  Claim C9. \<open>free_table_data\<close> should be safe on every table that \<open>read_parquet_data\<close>
  returns. With row groups of 1 and 4 rows and the window of the rows 3 and 4, the code
  reads row group 1, takes \<open>start_row\<close> itself as the offset in its four rows and is
  left with one row for a grid of two: the second row of the grid is never assigned, and
  \<open>free_table_data\<close> passes its pointer to \<open>free\<close>.
\<close>

theorem free_table_data_unassigned_cell:
  "read_rows (numbered_file [1, 4]) 3 2 =
     Inr (Some \<lparr>data = Some [[Some ''4''], [None]], row_count = 2, column_count = 1\<rparr>)
   \<and> free_table_data (Some \<lparr>data = Some [[Some ''4''], [None]], row_count = 2, column_count = 1\<rparr>)
       = Inl FreeOfUninitialised"
  by code_simp

section \<open>Dates beyond 32 bits of seconds\<close>

text \<open>
  Claim C10. For a day count of at least 24856 or at most -24857 the product
  \<open>days * 86400\<close> does not fit 32 bits: the seconds that reach \<open>gmtime\<close> are the product
  wrapped to 32 bits, they differ from the true product, they lie on another day than
  \<open>days\<close>, and the string of the cell is the date of the wrapped seconds.
\<close>

theorem date32_wraps:
  assumes "24856 \<le> sint days \<or> sint days \<le> - 24857"
  shows "date32_seconds days = signed_take_bit 31 (sint days * 86400)
       \<and> date32_seconds days \<noteq> sint days * 86400
       \<and> date32_seconds days div 86400 \<noteq> sint days
       \<and> stringify (Date32Array [Some days]) = [strftime_date (gmtime (date32_seconds days))]"
proof -
  have s: "date32_seconds days = sint (days * 86400)"
    unfolding date32_seconds_def by (simp add: sint_up_scast is_up)
  have r: "- 2147483648 \<le> sint (days * 86400)" "sint (days * 86400) < 2147483648"
    using sint_ge [of "days * 86400"] sint_lt [of "days * 86400"] by simp_all
  have w: "sint (days * 86400) = signed_take_bit 31 (sint days * 86400)"
    by (simp add: sint_word_ariths)
  define q where "q = sint (days * 86400) div 86400"
  have "q \<le> 2147483647 div 86400"
    unfolding q_def using r by (intro zdiv_mono1) simp_all
  moreover have "(- 2147483648) div 86400 \<le> q"
    unfolding q_def using r by (intro zdiv_mono1) simp_all
  ultimately have "q \<noteq> sint days"
    using assms by simp linarith
  then have d: "sint (days * 86400) div 86400 \<noteq> sint days"
    by (simp add: q_def)
  have n: "sint (days * 86400) \<noteq> sint days * 86400"
    using r assms by linarith
  show ?thesis
    using s w d n by (simp add: null_or_def date32_string_def)
qed

text \<open>
  Claim C10, on day 24856, which is 2038-01-20: the cell reads 1901-12-14.
\<close>

theorem date32_wraps_witness:
  "(24856 \<le> sint (24856 :: int32) \<or> sint (24856 :: int32) \<le> - 24857)
     \<and> date32_seconds 24856 = - 2147408896
     \<and> stringify (Date32Array [Some 24856]) = [''1901-12-14'']
     \<and> strftime_date (gmtime (24856 * 86400)) = ''2038-01-20''"
proof -
  have h: "24856 \<le> sint (24856 :: int32) \<or> sint (24856 :: int32) \<le> - 24857" by simp
  have a: "date32_seconds 24856 = - 2147408896" by (simp add: date32_seconds_def)
  have b: "strftime_date (gmtime (- 2147408896)) = ''1901-12-14''" by code_simp
  have c: "strftime_date (gmtime (24856 * 86400)) = ''2038-01-20''" by code_simp
  show ?thesis using date32_wraps [OF h] h a b c by simp
qed

end
